theory Spec2Isabelle
  imports Main
begin

section \<open>Cluster join of the KMS SDK (kms/cluster.go)\<close>

text \<open>
  The file \<^verbatim>\<open>kms/cluster.go\<close> holds one function, \<^verbatim>\<open>Join\<close>. It probes the configured
  endpoints for one that already belongs to a multi-node cluster, falls back to the first
  endpoint when there is none, and then asks the chosen cluster to add every endpoint
  that is not yet one of its nodes.

  \<^verbatim>\<open>NewClient\<close>, \<^verbatim>\<open>Client.ClusterStatus\<close> and \<^verbatim>\<open>Client.AddNode\<close> are declared elsewhere in the
  package; what they answer is decided by the servers. They are parameters of the model
  (the record \<open>env\<close> below), over an arbitrary type \<open>'w\<close> of states of the outside world
  (servers, network, the context's deadline) and an arbitrary type \<open>'e\<close> of errors.
\<close>

subsection \<open>Data\<close>

text \<open>\<^verbatim>\<open>Config\<close>: only the field \<^verbatim>\<open>Endpoints\<close> is read by \<^verbatim>\<open>Join\<close>.\<close>

record config =
  Endpoints :: "string list"

text \<open>
  The response of a status query. \<^verbatim>\<open>Join\<close> ranges over \<^verbatim>\<open>NodesUp\<close> and \<^verbatim>\<open>NodesDown\<close> with
  \<^verbatim>\<open>for _, node := range\<close> and takes their \<^verbatim>\<open>len\<close>, so each collection is modelled by the
  list of its entries; of an entry of \<^verbatim>\<open>NodesUp\<close> only the field \<^verbatim>\<open>Host\<close> is read, an
  entry of \<^verbatim>\<open>NodesDown\<close> is the host itself.
\<close>

record node_status =
  Host :: string

record cluster_status =
  NodesUp :: "node_status list"
  NodesDown :: "string list"

text \<open>
  What \<^verbatim>\<open>Join\<close> does to the outside is recorded, in order, as a list of events: the
  construction of the client with its error, every assignment to \<^verbatim>\<open>client.lb.Hosts\<close>,
  and every status query and add-node call with the hosts the client was routed to and
  the answer received.
\<close>

datatype 'e event =
    EvNewClient "'e option"
  | EvRoute "string list"
  | EvStatus "string list" "'e + cluster_status"
  | EvAddNode "string list" string "'e option"

text \<open>
  The collaborators. \<open>NewClient\<close> answers with an error or with the initial
  \<^verbatim>\<open>lb.Hosts\<close> of the new client; \<open>ClusterStatus\<close> and \<open>AddNode\<close> receive the hosts the
  client is routed to. Each may change the world. \<open>MapKeys\<close> is the order in which
  \<^verbatim>\<open>slices.Collect(maps.Keys(m))\<close> enumerates the keys of a map, which Go leaves unspecified.
\<close>

record ('w, 'e) env =
  NewClient :: "config \<Rightarrow> 'w \<Rightarrow> ('e + string list) \<times> 'w"
  ClusterStatus :: "string list \<Rightarrow> 'w \<Rightarrow> ('e + cluster_status) \<times> 'w"
  AddNode :: "string list \<Rightarrow> string \<Rightarrow> 'w \<Rightarrow> 'e option \<times> 'w"
  MapKeys :: "string set \<Rightarrow> string list"

text \<open>
  The state of a run once the client exists: the world, the events so far, the
  client's \<^verbatim>\<open>lb.Hosts\<close> and the local map \<^verbatim>\<open>clusterNodes\<close>, a \<^verbatim>\<open>map[string]struct{}\<close>, that
  is a set of strings.
\<close>

record ('w, 'e) state =
  world :: 'w
  trace :: "'e event list"
  lb_Hosts :: "string list"
  clusterNodes :: "string set"

text \<open>
  How a call of \<^verbatim>\<open>Join\<close> ends: \<open>Early\<close> when it returns before the client and
  \<^verbatim>\<open>clusterNodes\<close> exist (lines 25-33), \<open>Ran\<close> with the last state otherwise.
\<close>

datatype ('w, 'e) outcome =
    Early 'w "'e event list"
  | Ran "('w, 'e) state"

subsection \<open>Operations\<close>

definition Scheme :: string where
  "Scheme = ''https://''"

text \<open>Go's \<^verbatim>\<open>strings.TrimPrefix(s, prefix)\<close>.\<close>

definition TrimPrefix :: "string \<Rightarrow> string \<Rightarrow> string" where
  "TrimPrefix s pre =
     (if length pre \<le> length s \<and> take (length pre) s = pre then drop (length pre) s else s)"

text \<open>\<^verbatim>\<open>client.lb.Hosts = hs\<close>\<close>

definition set_hosts :: "string list \<Rightarrow> ('w, 'e) state \<Rightarrow> ('w, 'e) state" where
  "set_hosts hs st = st\<lparr>trace := trace st @ [EvRoute hs], lb_Hosts := hs\<rparr>"

text \<open>\<^verbatim>\<open>client.ClusterStatus(ctx, &ClusterStatusRequest{})\<close>\<close>

definition call_ClusterStatus ::
  "('w, 'e) env \<Rightarrow> ('w, 'e) state \<Rightarrow> ('e + cluster_status) \<times> ('w, 'e) state" where
  "call_ClusterStatus env st =
     (case ClusterStatus env (lb_Hosts st) (world st) of
        (r, w') \<Rightarrow> (r, st\<lparr>world := w', trace := trace st @ [EvStatus (lb_Hosts st) r]\<rparr>))"

text \<open>\<^verbatim>\<open>client.AddNode(ctx, &AddClusterNodeRequest{Host: endpoint})\<close>\<close>

definition call_AddNode ::
  "('w, 'e) env \<Rightarrow> string \<Rightarrow> ('w, 'e) state \<Rightarrow> 'e option \<times> ('w, 'e) state" where
  "call_AddNode env endpoint st =
     (case AddNode env (lb_Hosts st) endpoint (world st) of
        (r, w') \<Rightarrow>
          (r, st\<lparr>world := w', trace := trace st @ [EvAddNode (lb_Hosts st) endpoint r]\<rparr>))"

text \<open>
  Lines 58-63: the two loops that enter the hosts of a status response into
  \<^verbatim>\<open>clusterNodes\<close>.
\<close>

definition record_nodes :: "cluster_status \<Rightarrow> string set \<Rightarrow> string set" where
  "record_nodes status nodes =
     fold (\<lambda>node m. insert node m) (NodesDown status)
       (fold (\<lambda>node m. insert (Host node) m) (NodesUp status) nodes)"

text \<open>
  Lines 46-65, the discovery loop over the endpoints still to be probed. The result is
  the error of the \<^verbatim>\<open>return err\<close> at line 52, or \<open>None\<close> when the loop is left by its
  end or by the \<^verbatim>\<open>break\<close>.
\<close>

fun discover ::
  "('w, 'e) env \<Rightarrow> string list \<Rightarrow> ('w, 'e) state \<Rightarrow> 'e option \<times> ('w, 'e) state" where
  "discover env [] st = (None, st)"
| "discover env (ep # rest) st =
     (let endpoint = TrimPrefix ep Scheme;
          st1 = set_hosts [endpoint] st
      in case call_ClusterStatus env st1 of
           (Inl err, st2) \<Rightarrow> (Some err, st2)
         | (Inr status, st2) \<Rightarrow>
             if length (NodesUp status) + length (NodesDown status) = 1
             then discover env rest st2
             else (None, st2\<lparr>clusterNodes := record_nodes status (clusterNodes st2)\<rparr>))"

text \<open>
  Lines 69-71. \<^verbatim>\<open>Join\<close> reaches them with at least two endpoints, so
  \<^verbatim>\<open>conf.Endpoints[0]\<close> is in range.
\<close>

definition elect :: "config \<Rightarrow> ('w, 'e) state \<Rightarrow> ('w, 'e) state" where
  "elect conf st =
     (if clusterNodes st = {}
      then st\<lparr>clusterNodes := insert (TrimPrefix (Endpoints conf ! 0) Scheme) (clusterNodes st)\<rparr>
      else st)"

text \<open>Lines 74-82, the loop that joins the endpoints still to be visited.\<close>

fun converge ::
  "('w, 'e) env \<Rightarrow> string list \<Rightarrow> ('w, 'e) state \<Rightarrow> 'e option \<times> ('w, 'e) state" where
  "converge env [] st = (None, st)"
| "converge env (ep # rest) st =
     (let endpoint = TrimPrefix ep Scheme
      in if endpoint \<in> clusterNodes st then converge env rest st
         else case call_AddNode env endpoint st of
                (Some err, st1) \<Rightarrow> (Some err, st1)
              | (None, st1) \<Rightarrow> converge env rest st1)"

text \<open>
  The state at line 45: the client has been built, with its initial hosts, and
  \<^verbatim>\<open>clusterNodes\<close> is the empty map.
\<close>

definition after_NewClient :: "string list \<Rightarrow> 'w \<Rightarrow> ('w, 'e) state" where
  "after_NewClient hosts w =
     \<lparr>world = w, trace = [EvNewClient None], lb_Hosts = hosts, clusterNodes = {}\<rparr>"

text \<open>\<^verbatim>\<open>Join\<close> itself; the context is part of the world.\<close>

definition Join ::
  "('w, 'e) env \<Rightarrow> config \<Rightarrow> 'w \<Rightarrow> 'e option \<times> ('w, 'e) outcome" where
  "Join env conf w =
     (if length (Endpoints conf) \<le> 1 then (None, Early w [])
      else case NewClient env conf w of
             (Inl err, w1) \<Rightarrow> (Some err, Early w1 [EvNewClient (Some err)])
           | (Inr hosts, w1) \<Rightarrow>
               (case discover env (Endpoints conf) (after_NewClient hosts w1) of
                  (Some err, st1) \<Rightarrow> (Some err, Ran st1)
                | (None, st1) \<Rightarrow>
                    (let st2 = elect conf st1;
                         st3 = set_hosts (MapKeys env (clusterNodes st2)) st2
                     in case converge env (Endpoints conf) st3 of
                          (err, st4) \<Rightarrow> (err, Ran st4))))"

subsection \<open>Reading an outcome\<close>

fun out_trace :: "('w, 'e) outcome \<Rightarrow> 'e event list" where
  "out_trace (Early w tr) = tr"
| "out_trace (Ran st) = trace st"

text \<open>The membership set at the return, when the run got as far as creating it.\<close>

fun membership :: "('w, 'e) outcome \<Rightarrow> string set option" where
  "membership (Early w tr) = None"
| "membership (Ran st) = Some (clusterNodes st)"

text \<open>The error an event carries, if the step it records failed.\<close>

fun failure :: "'e event \<Rightarrow> 'e option" where
  "failure (EvNewClient r) = r"
| "failure (EvRoute hs) = None"
| "failure (EvStatus hs r) = (case r of Inl err \<Rightarrow> Some err | Inr status \<Rightarrow> None)"
| "failure (EvAddNode hs h r) = r"

text \<open>The hosts named by the add-node calls of a trace, in the order of the calls.\<close>

fun added :: "'e event list \<Rightarrow> string list" where
  "added [] = []"
| "added (EvAddNode hs h r # evs) = h # added evs"
| "added (ev # evs) = added evs"

text \<open>The errors of the failed steps of a trace, in order.\<close>

fun failures :: "'e event list \<Rightarrow> 'e list" where
  "failures [] = []"
| "failures (ev # evs) = (case failure ev of None \<Rightarrow> failures evs | Some err \<Rightarrow> err # failures evs)"

text \<open>The hosts each status query of a trace was routed to, in the order of the queries.\<close>

fun probed :: "'e event list \<Rightarrow> string list list" where
  "probed [] = []"
| "probed (EvStatus hs r # evs) = hs # probed evs"
| "probed (ev # evs) = probed evs"

text \<open>
  \<open>probe_standalone env eps w\<close> follows the status queries for the endpoints \<open>eps\<close>, one
  after the other from the world \<open>w\<close>, each routed to the one normalised endpoint as the
  discovery loop routes it. It is \<open>Some w'\<close> when every query succeeds and reports one
  node in total (\<open>w'\<close> the world after the last query), and \<open>None\<close> otherwise.
\<close>

fun probe_standalone :: "('w, 'e) env \<Rightarrow> string list \<Rightarrow> 'w \<Rightarrow> 'w option" where
  "probe_standalone env [] w = Some w"
| "probe_standalone env (ep # rest) w =
     (case ClusterStatus env [TrimPrefix ep Scheme] w of
        (Inl err, w') \<Rightarrow> None
      | (Inr status, w') \<Rightarrow>
          if length (NodesUp status) + length (NodesDown status) = 1
          then probe_standalone env rest w' else None)"

text \<open>
  \<open>join_all env hosts nodes eps w\<close> follows the add-node calls for those of the endpoints
  \<open>eps\<close> whose normalised form is not in \<open>nodes\<close>, one after the other from the world \<open>w\<close>,
  with the client routed to \<open>hosts\<close>. It is \<open>Some w'\<close> when every call succeeds (\<open>w'\<close> the
  world after the last call), and \<open>None\<close> otherwise.
\<close>

fun join_all ::
  "('w, 'e) env \<Rightarrow> string list \<Rightarrow> string set \<Rightarrow> string list \<Rightarrow> 'w \<Rightarrow> 'w option" where
  "join_all env hosts nodes [] w = Some w"
| "join_all env hosts nodes (ep # rest) w =
     (if TrimPrefix ep Scheme \<in> nodes then join_all env hosts nodes rest w
      else case AddNode env hosts (TrimPrefix ep Scheme) w of
             (Some err, w') \<Rightarrow> None
           | (None, w') \<Rightarrow> join_all env hosts nodes rest w')"

subsection \<open>A simulated deployment for the examples\<close>

text \<open>
  In the examples the world is the list of hosts added so far and errors are strings. A
  status query answers by a table indexed by the single host it is routed to, an
  add-node call by a table indexed by the host to add.
\<close>

definition sim ::
  "(string \<Rightarrow> string + cluster_status) \<Rightarrow> (string \<Rightarrow> string option) \<Rightarrow> (string list, string) env" where
  "sim status add =
     \<lparr>NewClient = (\<lambda>conf w. (Inr (Endpoints conf), w)),
      ClusterStatus = (\<lambda>hs w. (case hs of [h] \<Rightarrow> status h | _ \<Rightarrow> Inl ''no single host'', w)),
      AddNode = (\<lambda>hs h w. (add h, if add h = None then w @ [h] else w)),
      MapKeys = (\<lambda>S. filter (\<lambda>h. h \<in> S) [''a'', ''b'', ''c'', ''d'', ''x'', ''y'', ''https://a'', ''https://b''])\<rparr>"

definition cluster_of :: "string list \<Rightarrow> string list \<Rightarrow> string + cluster_status" where
  "cluster_of up down = Inr \<lparr>NodesUp = map (\<lambda>h. \<lparr>Host = h\<rparr>) up, NodesDown = down\<rparr>"

text \<open>Every node is on its own.\<close>

definition all_alone :: "string \<Rightarrow> string + cluster_status" where
  "all_alone h = cluster_of [h] []"

text \<open>\<open>a\<close> and \<open>b\<close> form a cluster, every other node is on its own.\<close>

definition pair_ab :: "string \<Rightarrow> string + cluster_status" where
  "pair_ab h = (if h = ''a'' \<or> h = ''b'' then cluster_of [''a''] [''b''] else cluster_of [h] [])"

text \<open>As \<open>pair_ab\<close>, with the nodes reporting their hosts with the scheme.\<close>

definition pair_ab_scheme :: "string \<Rightarrow> string + cluster_status" where
  "pair_ab_scheme h =
     (if h = ''a'' \<or> h = ''b'' then cluster_of [''https://a'', ''https://b''] []
      else cluster_of [h] [])"

text \<open>\<open>b\<close> does not answer.\<close>

definition b_silent :: "string \<Rightarrow> string + cluster_status" where
  "b_silent h = (if h = ''b'' then Inl ''timeout'' else cluster_of [h] [])"

text \<open>\<open>b\<close> reports no node at all.\<close>

definition b_empty :: "string \<Rightarrow> string + cluster_status" where
  "b_empty h = (if h = ''b'' then cluster_of [] [] else cluster_of [h] [])"

definition add_ok :: "string \<Rightarrow> string option" where
  "add_ok h = None"

text \<open>Adding \<open>c\<close> is refused.\<close>

definition add_c_refused :: "string \<Rightarrow> string option" where
  "add_c_refused h = (if h = ''c'' then Some ''refused'' else None)"

text \<open>A deployment for which no client can be built.\<close>

definition no_client :: "(string list, string) env" where
  "no_client = (sim all_alone add_ok)\<lparr>NewClient := (\<lambda>conf w. (Inl ''no client'', w))\<rparr>"

definition conf_of :: "string list \<Rightarrow> config" where
  "conf_of eps = \<lparr>Endpoints = eps\<rparr>"

section \<open>Auxiliary facts\<close>

lemma record_nodes_eq:
  "record_nodes status nodes = nodes \<union> Host ` set (NodesUp status) \<union> set (NodesDown status)"
proof -
  have up: "fold (\<lambda>node m. insert (Host node) m) xs m = m \<union> Host ` set xs" for xs and m :: "string set"
    by (induction xs arbitrary: m) auto
  have down: "fold (\<lambda>node m. insert node m) ys m = m \<union> set ys" for ys and m :: "string set"
    by (induction ys arbitrary: m) auto
  show ?thesis
    by (simp add: record_nodes_def up down)
qed

lemma added_append: "added (xs @ ys) = added xs @ added ys"
  by (induction xs rule: added.induct) simp_all

lemma probed_append: "probed (xs @ ys) = probed xs @ probed ys"
  by (induction xs rule: probed.induct) simp_all

lemma failures_append: "failures (xs @ ys) = failures xs @ failures ys"
  by (induction xs) (simp_all split: option.splits)

lemma failures_empty_iff: "failures tr = [] \<longleftrightarrow> (\<forall>ev \<in> set tr. failure ev = None)"
  by (induction tr) (auto split: option.splits)

lemma failure_in_failures: "ev \<in> set tr \<Longrightarrow> failure ev = Some err \<Longrightarrow> err \<in> set (failures tr)"
  by (induction tr) (auto split: option.splits)

lemma added_event: "EvAddNode hs h r \<in> set tr \<Longrightarrow> h \<in> set (added tr)"
  by (induction tr rule: added.induct) auto

lemma event_added: "h \<in> set (added tr) \<Longrightarrow> \<exists>hs r. EvAddNode hs h r \<in> set tr"
  by (induction tr rule: added.induct) auto

subsection \<open>The steps\<close>

text \<open>The two loops, one step unfolded, in terms of the components of a call's result.\<close>

lemma discover_Cons:
  "discover env (ep # rest) st =
     (let st2 = snd (call_ClusterStatus env (set_hosts [TrimPrefix ep Scheme] st))
      in case fst (call_ClusterStatus env (set_hosts [TrimPrefix ep Scheme] st)) of
           Inl err \<Rightarrow> (Some err, st2)
         | Inr status \<Rightarrow>
             if length (NodesUp status) + length (NodesDown status) = 1
             then discover env rest st2
             else (None, st2\<lparr>clusterNodes := record_nodes status (clusterNodes st2)\<rparr>))"
  by (simp add: Let_def split: prod.splits sum.splits)

lemma converge_Cons:
  "converge env (ep # rest) st =
     (if TrimPrefix ep Scheme \<in> clusterNodes st then converge env rest st
      else case fst (call_AddNode env (TrimPrefix ep Scheme) st) of
             Some err \<Rightarrow> (Some err, snd (call_AddNode env (TrimPrefix ep Scheme) st))
           | None \<Rightarrow> converge env rest (snd (call_AddNode env (TrimPrefix ep Scheme) st)))"
  by (simp add: Let_def split: prod.splits option.splits)

lemma set_hosts_simps [simp]:
  "world (set_hosts hs st) = world st"
  "trace (set_hosts hs st) = trace st @ [EvRoute hs]"
  "lb_Hosts (set_hosts hs st) = hs"
  "clusterNodes (set_hosts hs st) = clusterNodes st"
  by (simp_all add: set_hosts_def)

lemma call_ClusterStatus_simps [simp]:
  "fst (call_ClusterStatus env st) = fst (ClusterStatus env (lb_Hosts st) (world st))"
  "world (snd (call_ClusterStatus env st)) = snd (ClusterStatus env (lb_Hosts st) (world st))"
  "trace (snd (call_ClusterStatus env st)) =
     trace st @ [EvStatus (lb_Hosts st) (fst (ClusterStatus env (lb_Hosts st) (world st)))]"
  "lb_Hosts (snd (call_ClusterStatus env st)) = lb_Hosts st"
  "clusterNodes (snd (call_ClusterStatus env st)) = clusterNodes st"
  by (simp_all add: call_ClusterStatus_def split: prod.splits)

lemma call_AddNode_simps [simp]:
  "fst (call_AddNode env h st) = fst (AddNode env (lb_Hosts st) h (world st))"
  "world (snd (call_AddNode env h st)) = snd (AddNode env (lb_Hosts st) h (world st))"
  "trace (snd (call_AddNode env h st)) =
     trace st @ [EvAddNode (lb_Hosts st) h (fst (AddNode env (lb_Hosts st) h (world st)))]"
  "lb_Hosts (snd (call_AddNode env h st)) = lb_Hosts st"
  "clusterNodes (snd (call_AddNode env h st)) = clusterNodes st"
  by (simp_all add: call_AddNode_def split: prod.splits)

declare discover.simps(2) [simp del] converge.simps(2) [simp del]

subsection \<open>The discovery loop\<close>

lemma discover_added: "added (trace (snd (discover env eps st))) = added (trace st)"
  by (induction eps arbitrary: st)
     (simp_all add: discover_Cons Let_def added_append split: sum.splits)

lemma discover_failures:
  "failures (trace (snd (discover env eps st))) =
     failures (trace st) @ (case fst (discover env eps st) of None \<Rightarrow> [] | Some err \<Rightarrow> [err])"
  by (induction eps arbitrary: st)
     (simp_all add: discover_Cons Let_def failures_append split: sum.splits)

lemma discover_standalone:
  "probe_standalone env pre (world st) = Some w1 \<Longrightarrow>
   \<exists>st1. (\<forall>rest. discover env (pre @ rest) st = discover env rest st1) \<and> world st1 = w1 \<and>
         clusterNodes st1 = clusterNodes st \<and>
         probed (trace st1) = probed (trace st) @ map (\<lambda>ep. [TrimPrefix ep Scheme]) pre"
proof (induction pre arbitrary: st)
  case Nil
  then show ?case by (intro exI [of _ st]) simp
next
  case (Cons ep pre)
  let ?st2 = "snd (call_ClusterStatus env (set_hosts [TrimPrefix ep Scheme] st))"
  from Cons.prems obtain status where
    r: "fst (ClusterStatus env [TrimPrefix ep Scheme] (world st)) = Inr status" and
    one: "length (NodesUp status) + length (NodesDown status) = 1" and
    tl: "probe_standalone env pre (world ?st2) = Some w1"
    by (auto split: prod.splits sum.splits if_splits)
  from Cons.IH [OF tl] obtain st1 where
    "\<forall>rest. discover env (pre @ rest) ?st2 = discover env rest st1" "world st1 = w1"
    "clusterNodes st1 = clusterNodes ?st2"
    "probed (trace st1) = probed (trace ?st2) @ map (\<lambda>ep. [TrimPrefix ep Scheme]) pre"
    by blast
  with r one show ?case
    by (intro exI [of _ st1]) (simp add: discover_Cons Let_def probed_append)
qed

lemma discover_found:
  assumes "ClusterStatus env [TrimPrefix e Scheme] (world st) = (Inr status, w2)"
    and "length (NodesUp status) + length (NodesDown status) \<noteq> 1"
  shows "fst (discover env (e # rest) st) = None"
    and "world (snd (discover env (e # rest) st)) = w2"
    and "lb_Hosts (snd (discover env (e # rest) st)) = [TrimPrefix e Scheme]"
    and "clusterNodes (snd (discover env (e # rest) st)) =
           clusterNodes st \<union> Host ` set (NodesUp status) \<union> set (NodesDown status)"
    and "probed (trace (snd (discover env (e # rest) st))) =
           probed (trace st) @ [[TrimPrefix e Scheme]]"
  using assms by (simp_all add: discover_Cons Let_def record_nodes_eq probed_append)

subsection \<open>The convergence loop\<close>

lemma converge_clusterNodes: "clusterNodes (snd (converge env eps st)) = clusterNodes st"
  by (induction eps arbitrary: st) (simp_all add: converge_Cons split: option.splits)

lemma converge_failures:
  "failures (trace (snd (converge env eps st))) =
     failures (trace st) @ (case fst (converge env eps st) of None \<Rightarrow> [] | Some err \<Rightarrow> [err])"
  by (induction eps arbitrary: st)
     (simp_all add: converge_Cons failures_append split: option.splits)

lemma converge_probed: "probed (trace (snd (converge env eps st))) = probed (trace st)"
  by (induction eps arbitrary: st)
     (simp_all add: converge_Cons probed_append split: option.splits)

lemma converge_events:
  "ev \<in> set (trace (snd (converge env eps st))) \<Longrightarrow>
   ev \<in> set (trace st) \<or> (\<exists>hs h r. ev = EvAddNode hs h r)"
proof (induction eps arbitrary: st)
  case Nil
  then show ?case by simp
next
  case (Cons ep eps)
  let ?h = "TrimPrefix ep Scheme"
  let ?st1 = "snd (call_AddNode env ?h st)"
  have step: "ev \<in> set (trace ?st1) \<Longrightarrow> ?case"
    by auto
  show ?case
  proof (cases "?h \<in> clusterNodes st")
    case True
    with Cons show ?thesis by (simp add: converge_Cons)
  next
    case False
    show ?thesis
    proof (cases "fst (AddNode env (lb_Hosts st) ?h (world st))")
      case None
      with False Cons.prems have "ev \<in> set (trace (snd (converge env eps ?st1)))"
        by (simp add: converge_Cons)
      from Cons.IH [OF this] step show ?thesis by blast
    next
      case (Some e)
      with False Cons.prems have "ev \<in> set (trace ?st1)"
        by (simp add: converge_Cons)
      then show ?thesis by (rule step)
    qed
  qed
qed

lemma converge_added_ok:
  "fst (converge env eps st) = None \<Longrightarrow>
   added (trace (snd (converge env eps st))) =
     added (trace st) @ filter (\<lambda>h. h \<notin> clusterNodes st) (map (\<lambda>ep. TrimPrefix ep Scheme) eps)"
  by (induction eps arbitrary: st)
     (simp_all add: converge_Cons added_append split: option.splits if_splits)

lemma converge_added_prefix:
  "\<exists>later. added (trace st) @ filter (\<lambda>h. h \<notin> clusterNodes st) (map (\<lambda>ep. TrimPrefix ep Scheme) eps) =
           added (trace (snd (converge env eps st))) @ later"
proof (induction eps arbitrary: st)
  case Nil
  then show ?case by simp
next
  case (Cons ep eps)
  let ?h = "TrimPrefix ep Scheme"
  let ?st1 = "snd (call_AddNode env ?h st)"
  show ?case
  proof (cases "?h \<in> clusterNodes st")
    case True
    with Cons.IH [of st] show ?thesis by (simp add: converge_Cons)
  next
    case False
    show ?thesis
    proof (cases "fst (AddNode env (lb_Hosts st) ?h (world st))")
      case None
      with False Cons.IH [of ?st1] show ?thesis
        by (simp add: converge_Cons added_append)
    next
      case (Some e)
      with False show ?thesis by (simp add: converge_Cons added_append)
    qed
  qed
qed

lemma converge_last:
  "fst (converge env eps st) = Some err \<Longrightarrow>
   \<exists>tr h. trace (snd (converge env eps st)) = tr @ [EvAddNode (lb_Hosts st) h (Some err)]"
proof (induction eps arbitrary: st)
  case Nil
  then show ?case by simp
next
  case (Cons ep eps)
  let ?h = "TrimPrefix ep Scheme"
  let ?st1 = "snd (call_AddNode env ?h st)"
  show ?case
  proof (cases "?h \<in> clusterNodes st")
    case True
    with Cons.prems have "fst (converge env eps st) = Some err"
      by (simp add: converge_Cons)
    from Cons.IH [OF this] True show ?thesis by (simp add: converge_Cons)
  next
    case False
    show ?thesis
    proof (cases "fst (AddNode env (lb_Hosts st) ?h (world st))")
      case None
      with False Cons.prems have "fst (converge env eps ?st1) = Some err"
        by (simp add: converge_Cons)
      from Cons.IH [OF this] None False show ?thesis by (simp add: converge_Cons)
    next
      case (Some e)
      with False Cons.prems have "e = err" by (simp add: converge_Cons)
      with Some False show ?thesis by (auto simp add: converge_Cons)
    qed
  qed
qed

subsection \<open>The loops and the answers of the collaborators\<close>

lemma discover_status_error:
  assumes "probe_standalone env pre (world st) = Some w1"
    and "ClusterStatus env [TrimPrefix e Scheme] w1 = (Inl err, w2)"
  shows "fst (discover env (pre @ e # rest) st) = Some err"
proof -
  from discover_standalone [OF assms(1)] obtain st1 where
    "discover env (pre @ e # rest) st = discover env (e # rest) st1" "world st1 = w1"
    by blast
  with assms(2) show ?thesis
    by (simp add: discover_Cons Let_def)
qed

lemma discover_error_cause:
  "fst (discover env eps st) = Some err \<Longrightarrow>
   \<exists>pre e rest w1 w2. eps = pre @ e # rest \<and> probe_standalone env pre (world st) = Some w1 \<and>
      ClusterStatus env [TrimPrefix e Scheme] w1 = (Inl err, w2)"
proof (induction eps arbitrary: st)
  case Nil
  then show ?case by simp
next
  case (Cons ep eps)
  let ?st2 = "snd (call_ClusterStatus env (set_hosts [TrimPrefix ep Scheme] st))"
  obtain r w' where q: "ClusterStatus env [TrimPrefix ep Scheme] (world st) = (r, w')"
    by (cases "ClusterStatus env [TrimPrefix ep Scheme] (world st)")
  show ?case
  proof (cases r)
    case (Inl e')
    with q Cons.prems have "e' = err"
      by (simp add: discover_Cons Let_def)
    with q Inl have "ep # eps = [] @ ep # eps \<and> probe_standalone env [] (world st) = Some (world st) \<and>
        ClusterStatus env [TrimPrefix ep Scheme] (world st) = (Inl err, w')"
      by simp
    then show ?thesis by blast
  next
    case (Inr status)
    show ?thesis
    proof (cases "length (NodesUp status) + length (NodesDown status) = 1")
      case True
      with q Inr Cons.prems have "fst (discover env eps ?st2) = Some err"
        by (simp add: discover_Cons Let_def)
      from Cons.IH [OF this] q obtain pre e rest w1 w2 where
        "eps = pre @ e # rest" "probe_standalone env pre w' = Some w1"
        "ClusterStatus env [TrimPrefix e Scheme] w1 = (Inl err, w2)"
        by auto
      with q Inr True have "ep # eps = (ep # pre) @ e # rest \<and>
          probe_standalone env (ep # pre) (world st) = Some w1 \<and>
          ClusterStatus env [TrimPrefix e Scheme] w1 = (Inl err, w2)"
        by simp
      then show ?thesis by blast
    next
      case False
      with q Inr Cons.prems show ?thesis
        by (simp add: discover_Cons Let_def)
    qed
  qed
qed

lemma converge_join_all:
  "join_all env (lb_Hosts st) (clusterNodes st) pre (world st) = Some w1 \<Longrightarrow>
   \<exists>st1. (\<forall>rest. converge env (pre @ rest) st = converge env rest st1) \<and> world st1 = w1 \<and>
         lb_Hosts st1 = lb_Hosts st \<and> clusterNodes st1 = clusterNodes st"
proof (induction pre arbitrary: st)
  case Nil
  then show ?case by (intro exI [of _ st]) simp
next
  case (Cons ep pre)
  let ?h = "TrimPrefix ep Scheme"
  let ?st1 = "snd (call_AddNode env ?h st)"
  show ?case
  proof (cases "?h \<in> clusterNodes st")
    case True
    with Cons.prems have "join_all env (lb_Hosts st) (clusterNodes st) pre (world st) = Some w1"
      by simp
    from Cons.IH [OF this] obtain st1 where
      "\<forall>rest. converge env (pre @ rest) st = converge env rest st1" "world st1 = w1"
      "lb_Hosts st1 = lb_Hosts st" "clusterNodes st1 = clusterNodes st"
      by blast
    with True show ?thesis
      by (intro exI [of _ st1]) (simp add: converge_Cons)
  next
    case False
    with Cons.prems have ok: "fst (AddNode env (lb_Hosts st) ?h (world st)) = None"
      and tl: "join_all env (lb_Hosts ?st1) (clusterNodes ?st1) pre (world ?st1) = Some w1"
      by (auto split: prod.splits option.splits)
    from Cons.IH [OF tl] obtain st1 where
      "\<forall>rest. converge env (pre @ rest) ?st1 = converge env rest st1" "world st1 = w1"
      "lb_Hosts st1 = lb_Hosts ?st1" "clusterNodes st1 = clusterNodes ?st1"
      by blast
    with False ok show ?thesis
      by (intro exI [of _ st1]) (simp add: converge_Cons)
  qed
qed

lemma converge_add_error:
  assumes "join_all env (lb_Hosts st) (clusterNodes st) pre (world st) = Some w1"
    and "TrimPrefix e Scheme \<notin> clusterNodes st"
    and "AddNode env (lb_Hosts st) (TrimPrefix e Scheme) w1 = (Some err, w2)"
  shows "fst (converge env (pre @ e # rest) st) = Some err"
proof -
  from converge_join_all [OF assms(1)] obtain st1 where
    "converge env (pre @ e # rest) st = converge env (e # rest) st1" "world st1 = w1"
    "lb_Hosts st1 = lb_Hosts st" "clusterNodes st1 = clusterNodes st"
    by blast
  with assms(2,3) show ?thesis
    by (simp add: converge_Cons)
qed

lemma converge_ok_iff:
  "fst (converge env eps st) = None \<longleftrightarrow>
   join_all env (lb_Hosts st) (clusterNodes st) eps (world st) \<noteq> None"
  by (induction eps arbitrary: st)
     (simp_all add: converge_Cons split: option.splits prod.splits)

lemma converge_error_cause:
  "fst (converge env eps st) = Some err \<Longrightarrow>
   \<exists>pre e rest w1 w2. eps = pre @ e # rest \<and>
      join_all env (lb_Hosts st) (clusterNodes st) pre (world st) = Some w1 \<and>
      TrimPrefix e Scheme \<notin> clusterNodes st \<and>
      AddNode env (lb_Hosts st) (TrimPrefix e Scheme) w1 = (Some err, w2)"
proof (induction eps arbitrary: st)
  case Nil
  then show ?case by simp
next
  case (Cons ep eps)
  let ?h = "TrimPrefix ep Scheme"
  let ?st1 = "snd (call_AddNode env ?h st)"
  show ?case
  proof (cases "?h \<in> clusterNodes st")
    case True
    with Cons.prems have "fst (converge env eps st) = Some err"
      by (simp add: converge_Cons)
    from Cons.IH [OF this] obtain pre e rest w1 w2 where
      "eps = pre @ e # rest"
      "join_all env (lb_Hosts st) (clusterNodes st) pre (world st) = Some w1"
      "TrimPrefix e Scheme \<notin> clusterNodes st"
      "AddNode env (lb_Hosts st) (TrimPrefix e Scheme) w1 = (Some err, w2)"
      by blast
    with True have "ep # eps = (ep # pre) @ e # rest \<and>
        join_all env (lb_Hosts st) (clusterNodes st) (ep # pre) (world st) = Some w1 \<and>
        TrimPrefix e Scheme \<notin> clusterNodes st \<and>
        AddNode env (lb_Hosts st) (TrimPrefix e Scheme) w1 = (Some err, w2)"
      by simp
    then show ?thesis by blast
  next
    case False
    obtain r w' where q: "AddNode env (lb_Hosts st) ?h (world st) = (r, w')"
      by (cases "AddNode env (lb_Hosts st) ?h (world st)")
    show ?thesis
    proof (cases r)
      case None
      with q False Cons.prems have "fst (converge env eps ?st1) = Some err"
        by (simp add: converge_Cons)
      from Cons.IH [OF this] q obtain pre e rest w1 w2 where
        "eps = pre @ e # rest"
        "join_all env (lb_Hosts st) (clusterNodes st) pre w' = Some w1"
        "TrimPrefix e Scheme \<notin> clusterNodes st"
        "AddNode env (lb_Hosts st) (TrimPrefix e Scheme) w1 = (Some err, w2)"
        by auto
      with q None False have "ep # eps = (ep # pre) @ e # rest \<and>
          join_all env (lb_Hosts st) (clusterNodes st) (ep # pre) (world st) = Some w1 \<and>
          TrimPrefix e Scheme \<notin> clusterNodes st \<and>
          AddNode env (lb_Hosts st) (TrimPrefix e Scheme) w1 = (Some err, w2)"
        by simp
      then show ?thesis by blast
    next
      case (Some e')
      with q False Cons.prems have "e' = err"
        by (simp add: converge_Cons)
      with q Some False have "ep # eps = [] @ ep # eps \<and>
          join_all env (lb_Hosts st) (clusterNodes st) [] (world st) = Some (world st) \<and>
          TrimPrefix ep Scheme \<notin> clusterNodes st \<and>
          AddNode env (lb_Hosts st) (TrimPrefix ep Scheme) (world st) = (Some err, w')"
        by simp
      then show ?thesis by blast
    qed
  qed
qed

lemma join_all_each:
  "join_all env hosts nodes (pre @ e # rest) w \<noteq> None \<Longrightarrow> TrimPrefix e Scheme \<notin> nodes \<Longrightarrow>
   \<exists>w1 w2. join_all env hosts nodes pre w = Some w1 \<and>
           AddNode env hosts (TrimPrefix e Scheme) w1 = (None, w2)"
  by (induction pre arbitrary: w) (auto split: prod.splits option.splits if_splits)


subsection \<open>The whole of Join\<close>

lemma after_NewClient_simps [simp]:
  "world (after_NewClient hosts w) = w"
  "trace (after_NewClient hosts w) = [EvNewClient None]"
  "lb_Hosts (after_NewClient hosts w) = hosts"
  "clusterNodes (after_NewClient hosts w) = {}"
  by (simp_all add: after_NewClient_def)

lemma elect_simps [simp]:
  "world (elect conf st) = world st"
  "trace (elect conf st) = trace st"
  "lb_Hosts (elect conf st) = lb_Hosts st"
  by (simp_all add: elect_def)

lemma elect_clusterNodes:
  "clusterNodes (elect conf st) =
     (if clusterNodes st = {} then {TrimPrefix (Endpoints conf ! 0) Scheme} else clusterNodes st)"
  by (simp add: elect_def)

text \<open>The four ways through \<^verbatim>\<open>Join\<close>.\<close>

lemma Join_cases [case_names Trivial NoClient Unreachable Converging]:
  obtains
    (Trivial) "length (Endpoints conf) \<le> 1" "Join env conf w = (None, Early w [])"
  | (NoClient) err w1 where
      "1 < length (Endpoints conf)" "NewClient env conf w = (Inl err, w1)"
      "Join env conf w = (Some err, Early w1 [EvNewClient (Some err)])"
  | (Unreachable) hosts w1 err st1 where
      "1 < length (Endpoints conf)" "NewClient env conf w = (Inr hosts, w1)"
      "discover env (Endpoints conf) (after_NewClient hosts w1) = (Some err, st1)"
      "Join env conf w = (Some err, Ran st1)"
  | (Converging) hosts w1 st1 st3 where
      "1 < length (Endpoints conf)" "NewClient env conf w = (Inr hosts, w1)"
      "discover env (Endpoints conf) (after_NewClient hosts w1) = (None, st1)"
      "st3 = set_hosts (MapKeys env (clusterNodes (elect conf st1))) (elect conf st1)"
      "Join env conf w =
         (fst (converge env (Endpoints conf) st3), Ran (snd (converge env (Endpoints conf) st3)))"
proof (cases "length (Endpoints conf) \<le> 1")
  case True
  then show ?thesis by (auto simp add: Join_def intro: Trivial)
next
  case long: False
  obtain r0 w1 where nc: "NewClient env conf w = (r0, w1)"
    by (cases "NewClient env conf w")
  show ?thesis
  proof (cases r0)
    case (Inl err)
    with long nc show ?thesis by (auto simp add: Join_def intro: NoClient)
  next
    case (Inr hosts)
    obtain r1 st1 where d: "discover env (Endpoints conf) (after_NewClient hosts w1) = (r1, st1)"
      by (cases "discover env (Endpoints conf) (after_NewClient hosts w1)")
    show ?thesis
    proof (cases r1)
      case None
      with long nc Inr d show ?thesis
        by (intro Converging [of hosts w1 st1]) (auto simp add: Join_def Let_def split: prod.splits)
    next
      case (Some err)
      with long nc Inr d show ?thesis
        by (intro Unreachable [of hosts w1 err st1]) (simp_all add: Join_def)
    qed
  qed
qed

lemma Endpoints_conf_of [simp]: "Endpoints (conf_of eps) = eps"
  by (simp add: conf_of_def)

lemma count_list_filter:
  "count_list (filter P xs) h = (if P h then count_list xs h else 0)"
  by (induction xs) auto

lemma Converging_facts:
  assumes d: "discover env eps (after_NewClient hosts w1) = (None, st1)"
    and st3: "st3 = set_hosts (MapKeys env (clusterNodes (elect conf st1))) (elect conf st1)"
  shows "failures (trace st3) = []" and "added (trace st3) = []"
    and "probed (trace st3) = probed (trace st1)"
    and "clusterNodes st3 = clusterNodes (elect conf st1)"
proof -
  from discover_failures [of env eps "after_NewClient hosts w1"] d
  show "failures (trace st3) = []" by (simp add: st3 failures_append)
  from discover_added [of env eps "after_NewClient hosts w1"] d
  show "added (trace st3) = []" by (simp add: st3 added_append)
  show "probed (trace st3) = probed (trace st1)" by (simp add: st3 probed_append)
  show "clusterNodes st3 = clusterNodes (elect conf st1)" by (simp add: st3)
qed

text \<open>The definitions a run on concrete endpoints unfolds.\<close>

lemmas run_defs =
  Join_def sim_def conf_of_def cluster_of_def after_NewClient_def discover_Cons converge_Cons
  elect_def set_hosts_def call_ClusterStatus_def call_AddNode_def record_nodes_def
  TrimPrefix_def Scheme_def Let_def

section \<open>The claims\<close>

text \<open>
  C6. With at most one endpoint \<^verbatim>\<open>Join\<close> returns nil at once: the outcome is \<open>Early\<close>
  (no client was built, so there is no routing state that could have been assigned), the
  world is the one it was called in, and the trace is empty: no client construction, no
  assignment to \<^verbatim>\<open>lb.Hosts\<close>, no status query and no add-node call.
\<close>

theorem Join_trivial:
  "length (Endpoints conf) \<le> 1 \<Longrightarrow> Join env conf w = (None, Early w [])"
  by (simp add: Join_def)

theorem Join_trivial_witness:
  "length (Endpoints (conf_of [''https://a''])) \<le> 1 \<and>
   Join (sim all_alone add_ok) (conf_of [''https://a'']) [] = (None, Early [] [])"
  using Join_trivial [of "conf_of [''https://a'']" "sim all_alone add_ok" "[]"]
  by (simp add: conf_of_def)

text \<open>
  C9. The election leaves \<^verbatim>\<open>clusterNodes\<close> non-empty, and nothing after it changes the
  set: not the routing update of line 72, not an add-node call, and so not the convergence
  loop, from whatever state and for whatever endpoints are left to visit. A joined host is
  not entered into the set, and nothing is removed from it.
\<close>

theorem convergence_keeps_clusterNodes:
  "clusterNodes (elect conf st) \<noteq> {} \<and>
   clusterNodes (set_hosts hs st) = clusterNodes st \<and>
   clusterNodes (snd (call_AddNode env endpoint st)) = clusterNodes st \<and>
   clusterNodes (snd (converge env eps st)) = clusterNodes st"
  by (simp add: converge_clusterNodes elect_clusterNodes)

text \<open>
  C7. If a status query of a run of \<^verbatim>\<open>Join\<close> failed, with error \<open>err\<close>, then \<^verbatim>\<open>Join\<close>
  returns \<open>err\<close> and the run has issued no add-node call.
\<close>

theorem status_failure_aborts:
  assumes "EvStatus hs (Inl err) \<in> set (out_trace (snd (Join env conf w)))"
  shows "fst (Join env conf w) = Some err \<and> added (out_trace (snd (Join env conf w))) = []"
proof (cases rule: Join_cases [of conf env w])
  case Trivial
  with assms show ?thesis by simp
next
  case (NoClient e w1)
  with assms show ?thesis by simp
next
  case (Unreachable hosts w1 e st1)
  from assms Unreachable(4) have "err \<in> set (failures (trace st1))"
    by (auto intro: failure_in_failures)
  moreover have "failures (trace st1) = [e]"
    using discover_failures [of env "Endpoints conf" "after_NewClient hosts w1"] Unreachable(3)
    by simp
  moreover have "added (trace st1) = []"
    using discover_added [of env "Endpoints conf" "after_NewClient hosts w1"] Unreachable(3)
    by simp
  ultimately show ?thesis using Unreachable(4) by simp
next
  case (Converging hosts w1 st1 st3)
  have "failures (trace st1) = []"
    using discover_failures [of env "Endpoints conf" "after_NewClient hosts w1"] Converging(3)
    by simp
  then have "EvStatus hs (Inl err) \<notin> set (trace st1)"
    by (auto simp add: failures_empty_iff)
  then have "EvStatus hs (Inl err) \<notin> set (trace st3)"
    by (simp add: Converging(4))
  with converge_events [of "EvStatus hs (Inl err)" env "Endpoints conf" st3] assms Converging(5)
  show ?thesis by auto
qed

theorem status_failure_aborts_witness:
  "EvStatus [''b''] (Inl ''timeout'')
     \<in> set (out_trace (snd (Join (sim b_silent add_ok) (conf_of [''https://a'', ''https://b'', ''https://c'']) []))) \<and>
   fst (Join (sim b_silent add_ok) (conf_of [''https://a'', ''https://b'', ''https://c'']) []) = Some ''timeout'' \<and>
   added (out_trace (snd (Join (sim b_silent add_ok) (conf_of [''https://a'', ''https://b'', ''https://c'']) []))) = []"
proof -
  have h: "EvStatus [''b''] (Inl ''timeout'')
     \<in> set (out_trace (snd (Join (sim b_silent add_ok) (conf_of [''https://a'', ''https://b'', ''https://c'']) [])))"
    by (simp add: Join_def sim_def b_silent_def conf_of_def cluster_of_def after_NewClient_def
        discover_Cons TrimPrefix_def Scheme_def Let_def)
  from status_failure_aborts [OF h] h show ?thesis by simp
qed

text \<open>
  C1, as the code has it. \<^verbatim>\<open>Join\<close> returns the error \<open>err\<close> exactly when more than one
  endpoint is supplied and one of the collaborators answers with \<open>err\<close>: the construction
  of the client; or, the client built, the status query of an endpoint reached after
  endpoints that all answered with one node in total; or, discovery done, the add-node call
  for an endpoint outside the membership set reached after add-node calls that all
  succeeded. The error returned is the one the collaborator gave. And when \<^verbatim>\<open>Join\<close> returns
  nil for more than one endpoint, the membership set has been built and, for every supplied
  endpoint whose normalised form is outside it, the add-node call was issued and answered
  without error.
\<close>

theorem Join_error_iff_call_failed:
  fixes env :: "('w, 'e) env"
  shows
  "(fst (Join env conf w) = Some err \<longleftrightarrow>
      1 < length (Endpoints conf) \<and>
      ((\<exists>w1. NewClient env conf w = (Inl err, w1)) \<or>
       (\<exists>hosts w0 pre e rest w1 w2.
          NewClient env conf w = (Inr hosts, w0) \<and> Endpoints conf = pre @ e # rest \<and>
          probe_standalone env pre w0 = Some w1 \<and>
          ClusterStatus env [TrimPrefix e Scheme] w1 = (Inl err, w2)) \<or>
       (\<exists>hosts w0 st1 pre e rest w1 w2.
          NewClient env conf w = (Inr hosts, w0) \<and>
          discover env (Endpoints conf) (after_NewClient hosts w0) = (None, st1) \<and>
          Endpoints conf = pre @ e # rest \<and>
          join_all env (MapKeys env (clusterNodes (elect conf st1)))
            (clusterNodes (elect conf st1)) pre (world st1) = Some w1 \<and>
          TrimPrefix e Scheme \<notin> clusterNodes (elect conf st1) \<and>
          AddNode env (MapKeys env (clusterNodes (elect conf st1))) (TrimPrefix e Scheme) w1 =
            (Some err, w2)))) \<and>
   (fst (Join env conf w) = None \<and> 1 < length (Endpoints conf) \<longrightarrow>
      (\<exists>hosts w0 st1 cn.
         NewClient env conf w = (Inr hosts, w0) \<and>
         discover env (Endpoints conf) (after_NewClient hosts w0) = (None, st1) \<and>
         cn = clusterNodes (elect conf st1) \<and>
         membership (snd (Join env conf w)) = Some cn \<and>
         (\<forall>pre e rest. Endpoints conf = pre @ e # rest \<and> TrimPrefix e Scheme \<notin> cn \<longrightarrow>
            (\<exists>w1 w2. join_all env (MapKeys env cn) cn pre (world st1) = Some w1 \<and>
                AddNode env (MapKeys env cn) (TrimPrefix e Scheme) w1 = (None, w2)) \<and>
            (\<exists>hs. EvAddNode hs (TrimPrefix e Scheme) None
                    \<in> set (out_trace (snd (Join env conf w)))))))"
  (is "(?L \<longleftrightarrow> ?long \<and> (?A \<or> ?B \<or> ?C)) \<and> ?nil")
proof (cases rule: Join_cases [of conf env w])
  case Trivial
  then show ?thesis by simp
next
  case (NoClient e w1)
  then show ?thesis by auto
next
  case (Unreachable hosts w0 e st1)
  have "?B" if "e = err"
  proof -
    from Unreachable(3) that have "fst (discover env (Endpoints conf) (after_NewClient hosts w0)) = Some err"
      by simp
    from discover_error_cause [OF this] Unreachable(2) show ?thesis
      by simp
  qed
  moreover have "e = err" if "?B"
  proof -
    from that Unreachable(2) obtain pre e' rest w1 w2 where
      "Endpoints conf = pre @ e' # rest" "probe_standalone env pre w0 = Some w1"
      "ClusterStatus env [TrimPrefix e' Scheme] w1 = (Inl err, w2)"
      by auto
    with discover_status_error [of env pre "after_NewClient hosts w0" w1 e' err w2 rest] Unreachable(3)
    show ?thesis by simp
  qed
  ultimately have B: "?B \<longleftrightarrow> e = err"
    by (intro iffI)
  from Unreachable(2,3) have nA: "\<not> ?A" and nC: "\<not> ?C"
    by auto
  from Unreachable(4) have L: "?L \<longleftrightarrow> e = err" and nil: ?nil
    by simp_all
  have "?L \<longleftrightarrow> ?long \<and> (?A \<or> ?B \<or> ?C)"
  proof
    assume ?L
    with L B have ?B by simp
    then have "?A \<or> ?B \<or> ?C" by (rule disjI1 [THEN disjI2])
    with Unreachable(1) show "?long \<and> (?A \<or> ?B \<or> ?C)" by (rule conjI)
  next
    assume "?long \<and> (?A \<or> ?B \<or> ?C)"
    then have "?A \<or> ?B \<or> ?C" by (rule conjunct2)
    then have ?B
    proof (elim disjE)
      assume ?A
      with nA show ?thesis by contradiction
    next
      assume ?C
      with nC show ?thesis by contradiction
    qed
    with L B show ?L by simp
  qed
  with nil show ?thesis by (rule conjI [rotated])
next
  case (Converging hosts w0 st1 st3)
  let ?c = "converge env (Endpoints conf) st3"
  let ?cn = "clusterNodes (elect conf st1)"
  note st3 = Converging_facts [OF Converging(3,4)]
  have at3: "lb_Hosts st3 = MapKeys env ?cn" "clusterNodes st3 = ?cn" "world st3 = world st1"
    by (simp_all add: Converging(4))
  have nA: "\<not> ?A"
    using Converging(2) by simp
  have nB: "\<not> ?B"
  proof
    assume ?B
    with Converging(2) obtain pre e' rest w1 w2 where
      "Endpoints conf = pre @ e' # rest" "probe_standalone env pre w0 = Some w1"
      "ClusterStatus env [TrimPrefix e' Scheme] w1 = (Inl err, w2)"
      by auto
    with discover_status_error [of env pre "after_NewClient hosts w0" w1 e' err w2 rest] Converging(3)
    show False by simp
  qed
  have C1: "?C" if "fst ?c = Some err"
  proof -
    from converge_error_cause [OF that] Converging(2,3) show ?thesis
      by (simp add: at3)
  qed
  have C2: "fst ?c = Some err" if "?C"
  proof -
    from that Converging(2,3) obtain pre e' rest w1 w2 where
      "Endpoints conf = pre @ e' # rest"
      "join_all env (MapKeys env ?cn) ?cn pre (world st1) = Some w1"
      "TrimPrefix e' Scheme \<notin> ?cn"
      "AddNode env (MapKeys env ?cn) (TrimPrefix e' Scheme) w1 = (Some err, w2)"
      by auto
    with converge_add_error [of env st3 pre w1 e' err w2 rest] show ?thesis
      by (simp add: at3)
  qed
  from Converging(5) have L: "?L \<longleftrightarrow> fst ?c = Some err"
    by simp
  have first: "?L \<longleftrightarrow> ?long \<and> (?A \<or> ?B \<or> ?C)"
  proof
    assume ?L
    with L have "fst ?c = Some err" by simp
    then have ?C by (rule C1)
    then have "?A \<or> ?B \<or> ?C" by (rule disjI2 [THEN disjI2])
    with Converging(1) show "?long \<and> (?A \<or> ?B \<or> ?C)" by (rule conjI)
  next
    assume "?long \<and> (?A \<or> ?B \<or> ?C)"
    then have "?A \<or> ?B \<or> ?C" by (rule conjunct2)
    then have ?C
    proof (elim disjE)
      assume ?A
      with nA show ?thesis by contradiction
    next
      assume ?B
      with nB show ?thesis by contradiction
    qed
    then have "fst ?c = Some err" by (rule C2)
    with L show ?L by simp
  qed
  have second: ?nil
  proof (intro impI, elim conjE)
    assume "fst (Join env conf w) = None"
    with Converging(5) have ok: "fst ?c = None"
      by simp
    then have all: "join_all env (MapKeys env ?cn) ?cn (Endpoints conf) (world st1) \<noteq> None"
      by (simp add: converge_ok_iff at3)
    have fl: "\<forall>ev \<in> set (trace (snd ?c)). failure ev = None"
      using converge_failures [of env "Endpoints conf" st3] ok
      by (simp add: st3 failures_empty_iff)
    have "(\<exists>w1 w2. join_all env (MapKeys env ?cn) ?cn pre (world st1) = Some w1 \<and>
              AddNode env (MapKeys env ?cn) (TrimPrefix e Scheme) w1 = (None, w2)) \<and>
          (\<exists>hs. EvAddNode hs (TrimPrefix e Scheme) None \<in> set (trace (snd ?c)))"
      if eps: "Endpoints conf = pre @ e # rest" and out: "TrimPrefix e Scheme \<notin> ?cn"
      for pre e rest
    proof
      from all eps join_all_each [of env "MapKeys env ?cn" ?cn pre e rest "world st1", OF _ out]
      show "\<exists>w1 w2. join_all env (MapKeys env ?cn) ?cn pre (world st1) = Some w1 \<and>
              AddNode env (MapKeys env ?cn) (TrimPrefix e Scheme) w1 = (None, w2)"
        by simp
      from eps out converge_added_ok [OF ok]
      have "TrimPrefix e Scheme \<in> set (added (trace (snd ?c)))"
        by (simp add: st3 at3)
      then obtain hs r where ev: "EvAddNode hs (TrimPrefix e Scheme) r \<in> set (trace (snd ?c))"
        by (blast dest: event_added)
      with fl have "r = None" by fastforce
      with ev show "\<exists>hs. EvAddNode hs (TrimPrefix e Scheme) None \<in> set (trace (snd ?c))"
        by blast
    qed
    with Converging(2,3,5) show "\<exists>hosts w0 st1 cn.
         NewClient env conf w = (Inr hosts, w0) \<and>
         discover env (Endpoints conf) (after_NewClient hosts w0) = (None, st1) \<and>
         cn = clusterNodes (elect conf st1) \<and>
         membership (snd (Join env conf w)) = Some cn \<and>
         (\<forall>pre e rest. Endpoints conf = pre @ e # rest \<and> TrimPrefix e Scheme \<notin> cn \<longrightarrow>
            (\<exists>w1 w2. join_all env (MapKeys env cn) cn pre (world st1) = Some w1 \<and>
                AddNode env (MapKeys env cn) (TrimPrefix e Scheme) w1 = (None, w2)) \<and>
            (\<exists>hs. EvAddNode hs (TrimPrefix e Scheme) None
                    \<in> set (out_trace (snd (Join env conf w)))))"
      by (intro exI [of _ hosts] exI [of _ w0] exI [of _ st1] exI [of _ ?cn])
         (simp add: converge_clusterNodes at3)
  qed
  from first second show ?thesis by (rule conjI)
qed


theorem Join_error_iff_call_failed_witness:
  "(1 < length (Endpoints (conf_of [''https://x'', ''https://y''])) \<and>
    NewClient no_client (conf_of [''https://x'', ''https://y'']) [] = (Inl ''no client'', []) \<and>
    fst (Join no_client (conf_of [''https://x'', ''https://y'']) []) = Some ''no client'') \<and>
   (NewClient (sim b_silent add_ok) (conf_of [''https://a'', ''https://b'', ''https://c'']) [] =
      (Inr [''https://a'', ''https://b'', ''https://c''], []) \<and>
    Endpoints (conf_of [''https://a'', ''https://b'', ''https://c'']) =
      [''https://a''] @ ''https://b'' # [''https://c''] \<and>
    probe_standalone (sim b_silent add_ok) [''https://a''] [] = Some [] \<and>
    ClusterStatus (sim b_silent add_ok) [TrimPrefix ''https://b'' Scheme] [] = (Inl ''timeout'', []) \<and>
    fst (Join (sim b_silent add_ok) (conf_of [''https://a'', ''https://b'', ''https://c'']) []) =
      Some ''timeout'') \<and>
   (clusterNodes (elect (conf_of [''https://a'', ''https://b'', ''https://c''])
        (snd (discover (sim all_alone add_c_refused) [''https://a'', ''https://b'', ''https://c'']
           (after_NewClient [''https://a'', ''https://b'', ''https://c''] [])))) = {''a''} \<and>
    join_all (sim all_alone add_c_refused) [''a''] {''a''} [''https://a'', ''https://b''] [] = Some [''b''] \<and>
    AddNode (sim all_alone add_c_refused) [''a''] (TrimPrefix ''https://c'' Scheme) [''b''] =
      (Some ''refused'', [''b'']) \<and>
    fst (Join (sim all_alone add_c_refused) (conf_of [''https://a'', ''https://b'', ''https://c'']) []) =
      Some ''refused'') \<and>
   (fst (Join (sim all_alone add_ok) (conf_of [''https://x'', ''https://y'']) []) = None \<and>
    membership (snd (Join (sim all_alone add_ok) (conf_of [''https://x'', ''https://y'']) [])) =
      Some {''x''} \<and>
    TrimPrefix ''https://y'' Scheme \<notin> {''x''} \<and>
    (\<exists>hs. EvAddNode hs (TrimPrefix ''https://y'' Scheme) None
       \<in> set (out_trace (snd (Join (sim all_alone add_ok) (conf_of [''https://x'', ''https://y'']) [])))))"
proof (intro conjI)
  let ?xy = "conf_of [''https://x'', ''https://y'']"
  let ?abc = "conf_of [''https://a'', ''https://b'', ''https://c'']"
  show long: "1 < length (Endpoints ?xy)"
    by simp
  show nc: "NewClient no_client ?xy [] = (Inl ''no client'', [])"
    by (simp add: no_client_def sim_def)
  show "fst (Join no_client ?xy []) = Some ''no client''"
    by (rule Join_error_iff_call_failed [THEN conjunct1, THEN iffD2])
       (intro conjI disjI1 exI, rule long, rule nc)
next
  let ?E = "sim b_silent add_ok"
  let ?abc = "conf_of [''https://a'', ''https://b'', ''https://c'']"
  have long: "1 < length (Endpoints ?abc)"
    by simp
  show nc: "NewClient ?E ?abc [] = (Inr [''https://a'', ''https://b'', ''https://c''], [])"
    by (simp add: sim_def)
  show eps: "Endpoints ?abc = [''https://a''] @ ''https://b'' # [''https://c'']"
    by simp
  show pr: "probe_standalone ?E [''https://a''] [] = Some []"
    by (simp add: sim_def b_silent_def cluster_of_def TrimPrefix_def Scheme_def)
  show q: "ClusterStatus ?E [TrimPrefix ''https://b'' Scheme] [] = (Inl ''timeout'', [])"
    by (simp add: sim_def b_silent_def cluster_of_def TrimPrefix_def Scheme_def)
  show "fst (Join ?E ?abc []) = Some ''timeout''"
    by (rule Join_error_iff_call_failed [THEN conjunct1, THEN iffD2])
       (rule conjI, rule long, rule disjI2, rule disjI1, intro exI conjI,
        rule nc, rule eps, rule pr, rule q)
next
  let ?E = "sim all_alone add_c_refused"
  let ?eps = "[''https://a'', ''https://b'', ''https://c'']"
  let ?abc = "conf_of ?eps"
  let ?st1 = "snd (discover ?E ?eps (after_NewClient ?eps [])) :: (string list, string) state"
  have long: "1 < length (Endpoints ?abc)"
    by simp
  have nc: "NewClient ?E ?abc [] = (Inr ?eps, [])"
    by (simp add: sim_def)
  have "fst (discover ?E ?eps (after_NewClient ?eps [])) = None"
    by (simp add: run_defs all_alone_def)
  then have d: "discover ?E (Endpoints ?abc) (after_NewClient ?eps []) = (None, ?st1)"
    by (simp add: prod_eq_iff)
  have eps: "Endpoints ?abc = [''https://a'', ''https://b''] @ ''https://c'' # []"
    by simp
  show cn: "clusterNodes (elect ?abc ?st1) = {''a''}"
    by (simp add: run_defs all_alone_def)
  have hosts: "MapKeys ?E {''a''} = [''a'']"
    by (simp add: sim_def)
  have w: "world ?st1 = []"
    by (simp add: run_defs all_alone_def)
  show ja: "join_all ?E [''a''] {''a''} [''https://a'', ''https://b''] [] = Some [''b'']"
    by (simp add: sim_def add_c_refused_def TrimPrefix_def Scheme_def)
  have out: "TrimPrefix ''https://c'' Scheme \<notin> {''a''}"
    by (simp add: TrimPrefix_def Scheme_def)
  show q: "AddNode ?E [''a''] (TrimPrefix ''https://c'' Scheme) [''b''] = (Some ''refused'', [''b''])"
    by (simp add: sim_def add_c_refused_def TrimPrefix_def Scheme_def)
  have ja': "join_all ?E (MapKeys ?E (clusterNodes (elect ?abc ?st1)))
      (clusterNodes (elect ?abc ?st1)) [''https://a'', ''https://b''] (world ?st1) = Some [''b'']"
    using ja by (simp only: cn hosts w)
  have out': "TrimPrefix ''https://c'' Scheme \<notin> clusterNodes (elect ?abc ?st1)"
    using out by (simp only: cn simp_thms)
  have q': "AddNode ?E (MapKeys ?E (clusterNodes (elect ?abc ?st1))) (TrimPrefix ''https://c'' Scheme)
      [''b''] = (Some ''refused'', [''b''])"
    using q by (simp only: cn hosts)
  show "fst (Join ?E ?abc []) = Some ''refused''"
    by (rule Join_error_iff_call_failed [THEN conjunct1, THEN iffD2])
       (rule conjI, rule long, rule disjI2, rule disjI2, intro exI conjI,
        rule nc, rule d, rule eps, rule ja', rule out', rule q')
next
  let ?E = "sim all_alone add_ok"
  let ?xy = "conf_of [''https://x'', ''https://y'']"
  have long: "1 < length (Endpoints ?xy)"
    by simp
  have eps: "Endpoints ?xy = [''https://x''] @ ''https://y'' # []"
    by simp
  show ok: "fst (Join ?E ?xy []) = None"
    by (simp add: run_defs all_alone_def add_ok_def)
  show m: "membership (snd (Join ?E ?xy [])) = Some {''x''}"
    by (simp add: run_defs all_alone_def add_ok_def)
  show out: "TrimPrefix ''https://y'' Scheme \<notin> {''x''}"
    by (simp add: TrimPrefix_def Scheme_def)
  from Join_error_iff_call_failed [where env = ?E and conf = ?xy and w = "[]", THEN conjunct2,
      THEN mp, OF conjI [OF ok long]]
  show "\<exists>hs. EvAddNode hs (TrimPrefix ''https://y'' Scheme) None
       \<in> set (out_trace (snd (Join ?E ?xy [])))"
  proof (elim exE conjE)
    fix cn and st1 :: "(string list, string) state"
    assume "membership (snd (Join ?E ?xy [])) = Some cn"
    with m have cn: "cn = {''x''}" by simp
    assume each: "\<forall>pre e rest. Endpoints ?xy = pre @ e # rest \<and> TrimPrefix e Scheme \<notin> cn \<longrightarrow>
      (\<exists>w1 w2. join_all ?E (MapKeys ?E cn) cn pre (world st1) = Some w1 \<and>
                AddNode ?E (MapKeys ?E cn) (TrimPrefix e Scheme) w1 = (None, w2)) \<and>
      (\<exists>hs. EvAddNode hs (TrimPrefix e Scheme) None \<in> set (out_trace (snd (Join ?E ?xy []))))"
    from out have "TrimPrefix ''https://y'' Scheme \<notin> cn"
      by (simp only: cn simp_thms)
    from each [THEN spec, THEN spec, THEN spec, THEN mp, OF conjI [OF eps this]]
    show ?thesis
      by (rule conjunct2)
  qed
qed


text \<open>
  C1 as stated fails for a single endpoint: \<^verbatim>\<open>Join\<close> returns nil, no membership set holds
  the endpoint, since none is built, and no add-node call is issued.
\<close>

theorem single_endpoint_no_add:
  "fst (Join (sim all_alone add_ok) (conf_of [''https://a'']) []) = None \<and>
   ''https://a'' \<in> set (Endpoints (conf_of [''https://a''])) \<and>
   membership (snd (Join (sim all_alone add_ok) (conf_of [''https://a'']) [])) = None \<and>
   out_trace (snd (Join (sim all_alone add_ok) (conf_of [''https://a'']) [])) = []"
  by (simp add: Join_def)

text \<open>
  C8. If an add-node call of a run of \<^verbatim>\<open>Join\<close> failed, for the host \<open>h\<close> with error
  \<open>err\<close>, then \<^verbatim>\<open>Join\<close> returns \<open>err\<close> and the failed call is the last event of the run: no
  later call is issued and nothing undoes the earlier ones, which all succeeded. With
  \<open>j\<close> the number of add-node calls before it, the calls issued are those for the first
  \<open>j + 1\<close> endpoints, in list order, that are not in the membership set.
\<close>

theorem add_failure_aborts:
  assumes "EvAddNode hs h (Some err) \<in> set (out_trace (snd (Join env conf w)))"
  shows "fst (Join env conf w) = Some err \<and>
    (\<exists>tr cn. out_trace (snd (Join env conf w)) = tr @ [EvAddNode hs h (Some err)] \<and>
       failures tr = [] \<and>
       membership (snd (Join env conf w)) = Some cn \<and>
       added tr @ [h] =
         take (Suc (length (added tr)))
           (filter (\<lambda>x. x \<notin> cn) (map (\<lambda>ep. TrimPrefix ep Scheme) (Endpoints conf))))"
proof (cases rule: Join_cases [of conf env w])
  case Trivial
  with assms show ?thesis by simp
next
  case (NoClient e w1)
  with assms show ?thesis by simp
next
  case (Unreachable hosts w1 e st1)
  from discover_added [of env "Endpoints conf" "after_NewClient hosts w1"] Unreachable(3)
  have "added (trace st1) = []" by simp
  with assms Unreachable(4) added_event [of hs h "Some err" "trace st1"]
  show ?thesis by simp
next
  case (Converging hosts w1 st1 st3)
  let ?c = "converge env (Endpoints conf) st3"
  let ?nonmem = "filter (\<lambda>x. x \<notin> clusterNodes st3) (map (\<lambda>ep. TrimPrefix ep Scheme) (Endpoints conf))"
  note st3 = Converging_facts [OF Converging(3,4)]
  have fl: "failures (trace (snd ?c)) = (case fst ?c of None \<Rightarrow> [] | Some e \<Rightarrow> [e])"
    using converge_failures [of env "Endpoints conf" st3] by (simp add: st3)
  from assms Converging(5) have ev: "EvAddNode hs h (Some err) \<in> set (trace (snd ?c))"
    by simp
  then have "err \<in> set (failures (trace (snd ?c)))"
    by (rule failure_in_failures) simp
  with fl have r: "fst ?c = Some err"
    by (cases "fst ?c") simp_all
  from converge_last [OF r] obtain tr h' where
    tr: "trace (snd ?c) = tr @ [EvAddNode (lb_Hosts st3) h' (Some err)]"
    by blast
  with fl r have quiet: "failures tr = []"
    by (simp add: failures_append)
  then have "EvAddNode hs h (Some err) \<notin> set tr"
    by (auto simp add: failures_empty_iff)
  with ev tr have same: "hs = lb_Hosts st3" "h = h'" by simp_all
  from converge_added_prefix [where st = st3 and env = env and eps = "Endpoints conf"] obtain later where
    "?nonmem = added (trace (snd ?c)) @ later"
    by (auto simp add: st3)
  then have "?nonmem = (added tr @ [h]) @ later"
    by (simp add: tr same added_append)
  then have "take (Suc (length (added tr))) ?nonmem = added tr @ [h]"
    by simp
  with r tr same quiet Converging(5) show ?thesis
    by (simp add: converge_clusterNodes)
qed

theorem add_failure_aborts_witness:
  "EvAddNode [''a''] ''c'' (Some ''refused'')
     \<in> set (out_trace (snd (Join (sim all_alone add_c_refused)
              (conf_of [''https://a'', ''https://b'', ''https://c'', ''https://d'']) []))) \<and>
   fst (Join (sim all_alone add_c_refused)
          (conf_of [''https://a'', ''https://b'', ''https://c'', ''https://d'']) []) = Some ''refused'' \<and>
   added (out_trace (snd (Join (sim all_alone add_c_refused)
          (conf_of [''https://a'', ''https://b'', ''https://c'', ''https://d'']) []))) = [''b'', ''c'']"
proof -
  have run: "Join (sim all_alone add_c_refused)
       (conf_of [''https://a'', ''https://b'', ''https://c'', ''https://d'']) [] =
    (Some ''refused'',
     Ran \<lparr>world = [''b''],
         trace =
           [EvNewClient None, EvRoute [''a''],
            EvStatus [''a''] (Inr \<lparr>NodesUp = [\<lparr>Host = ''a''\<rparr>], NodesDown = []\<rparr>),
            EvRoute [''b''],
            EvStatus [''b''] (Inr \<lparr>NodesUp = [\<lparr>Host = ''b''\<rparr>], NodesDown = []\<rparr>),
            EvRoute [''c''],
            EvStatus [''c''] (Inr \<lparr>NodesUp = [\<lparr>Host = ''c''\<rparr>], NodesDown = []\<rparr>),
            EvRoute [''d''],
            EvStatus [''d''] (Inr \<lparr>NodesUp = [\<lparr>Host = ''d''\<rparr>], NodesDown = []\<rparr>),
            EvRoute [''a''], EvAddNode [''a''] ''b'' None,
            EvAddNode [''a''] ''c'' (Some ''refused'')],
         lb_Hosts = [''a''], clusterNodes = {''a''}\<rparr>)"
    by (simp add: Join_def sim_def all_alone_def add_c_refused_def conf_of_def cluster_of_def
        after_NewClient_def discover_Cons converge_Cons elect_def set_hosts_def
        call_ClusterStatus_def call_AddNode_def
        TrimPrefix_def Scheme_def Let_def)
  have h: "EvAddNode [''a''] ''c'' (Some ''refused'')
     \<in> set (out_trace (snd (Join (sim all_alone add_c_refused)
              (conf_of [''https://a'', ''https://b'', ''https://c'', ''https://d'']) [])))"
    by (simp add: run)
  from add_failure_aborts [OF h] h show ?thesis
    by (simp add: run)
qed

text \<open>
  C3, as the code has it. Whenever \<^verbatim>\<open>Join\<close> has built the membership set: no add-node
  call names a host of the final membership set; and when \<^verbatim>\<open>Join\<close> returns nil, the
  add-node calls are, in list order, one for each position of the list whose normalised
  endpoint is not in the set. A host outside the set so receives as many calls as the
  list has entries for it: exactly one when it is listed once.
\<close>

theorem add_calls_per_occurrence:
  assumes "membership (snd (Join env conf w)) = Some cn"
  shows "(\<forall>h \<in> cn. h \<notin> set (added (out_trace (snd (Join env conf w))))) \<and>
    (fst (Join env conf w) = None \<longrightarrow>
       added (out_trace (snd (Join env conf w))) =
         filter (\<lambda>h. h \<notin> cn) (map (\<lambda>ep. TrimPrefix ep Scheme) (Endpoints conf)) \<and>
       (\<forall>h. h \<notin> cn \<longrightarrow>
          count_list (added (out_trace (snd (Join env conf w)))) h =
            count_list (map (\<lambda>ep. TrimPrefix ep Scheme) (Endpoints conf)) h))"
proof (cases rule: Join_cases [of conf env w])
  case Trivial
  with assms show ?thesis by simp
next
  case (NoClient e w1)
  with assms show ?thesis by simp
next
  case (Unreachable hosts w1 e st1)
  from discover_added [of env "Endpoints conf" "after_NewClient hosts w1"] Unreachable(3)
  have "added (trace st1) = []" by simp
  with Unreachable(4) show ?thesis by simp
next
  case (Converging hosts w1 st1 st3)
  let ?c = "converge env (Endpoints conf) st3"
  let ?nonmem = "filter (\<lambda>h. h \<notin> cn) (map (\<lambda>ep. TrimPrefix ep Scheme) (Endpoints conf))"
  note st3 = Converging_facts [OF Converging(3,4)]
  from assms Converging(5) have cn: "clusterNodes st3 = cn"
    by (simp add: converge_clusterNodes)
  from converge_added_prefix [where st = st3 and env = env and eps = "Endpoints conf"]
  obtain later where "?nonmem = added (trace (snd ?c)) @ later"
    by (auto simp add: st3(2) cn)
  then have "set (added (trace (snd ?c))) \<subseteq> set ?nonmem"
    by simp
  then have members: "\<forall>h \<in> cn. h \<notin> set (added (trace (snd ?c)))"
    by auto
  have "added (trace (snd ?c)) = ?nonmem" if "fst ?c = None"
    using converge_added_ok [OF that] by (simp add: st3(2) cn)
  with members Converging(5) show ?thesis
    by (simp add: count_list_filter)
qed

theorem add_calls_per_occurrence_witness:
  "membership (snd (Join (sim pair_ab add_ok) (conf_of [''https://c'', ''https://a'', ''b'']) []))
     = Some {''a'', ''b''} \<and>
   fst (Join (sim pair_ab add_ok) (conf_of [''https://c'', ''https://a'', ''b'']) []) = None \<and>
   ''a'' \<notin> set (added (out_trace (snd (Join (sim pair_ab add_ok) (conf_of [''https://c'', ''https://a'', ''b'']) [])))) \<and>
   added (out_trace (snd (Join (sim pair_ab add_ok) (conf_of [''https://c'', ''https://a'', ''b'']) []))) = [''c''] \<and>
   ''c'' \<notin> {''a'', ''b''} \<and>
   count_list (added (out_trace (snd (Join (sim pair_ab add_ok) (conf_of [''https://c'', ''https://a'', ''b'']) [])))) ''c'' = 1"
proof -
  have m: "membership (snd (Join (sim pair_ab add_ok) (conf_of [''https://c'', ''https://a'', ''b'']) []))
     = Some {''a'', ''b''}"
    by (auto simp add: run_defs pair_ab_def add_ok_def)
  have ok: "fst (Join (sim pair_ab add_ok) (conf_of [''https://c'', ''https://a'', ''b'']) []) = None"
    by (simp add: run_defs pair_ab_def add_ok_def)
  from add_calls_per_occurrence [OF m] m ok show ?thesis
    by (simp add: TrimPrefix_def Scheme_def)
qed

text \<open>
  C3 as stated fails for an endpoint that is listed twice: with \<open>x\<close>, \<open>y\<close>, \<open>y\<close>, all on
  their own and every call succeeding, \<open>y\<close> is not in the membership set and receives two
  add-node calls.
\<close>

theorem duplicate_endpoint_added_twice:
  "fst (Join (sim all_alone add_ok) (conf_of [''https://x'', ''https://y'', ''https://y'']) []) = None \<and>
   membership (snd (Join (sim all_alone add_ok) (conf_of [''https://x'', ''https://y'', ''https://y'']) []))
     = Some {''x''} \<and>
   TrimPrefix ''https://y'' Scheme = ''y'' \<and> ''y'' \<notin> {''x''} \<and>
   count_list (added (out_trace (snd (Join (sim all_alone add_ok)
       (conf_of [''https://x'', ''https://y'', ''https://y'']) [])))) ''y'' = 2"
  by (simp add: run_defs all_alone_def add_ok_def)

text \<open>
  C2. Let the endpoints \<open>pre\<close> all answer their status query with one node in total, and
  let the next endpoint \<open>e\<close> answer with a total other than one. Then discovery, started
  with the empty membership set as \<^verbatim>\<open>Join\<close> starts it, ends without error with exactly the
  up and down hosts of that answer as the membership set; the status queries issued are
  those for \<open>pre\<close> and \<open>e\<close> and no more; and the result is the same as for the list cut
  after \<open>e\<close>, whatever endpoints follow and whatever they would answer.
\<close>

theorem discover_first_multi_node:
  assumes "clusterNodes st = {}"
    and "probe_standalone env pre (world st) = Some w1"
    and "ClusterStatus env [TrimPrefix e Scheme] w1 = (Inr status, w2)"
    and "length (NodesUp status) + length (NodesDown status) \<noteq> 1"
  shows "fst (discover env (pre @ e # rest) st) = None \<and>
    clusterNodes (snd (discover env (pre @ e # rest) st)) =
      Host ` set (NodesUp status) \<union> set (NodesDown status) \<and>
    probed (trace (snd (discover env (pre @ e # rest) st))) =
      probed (trace st) @ map (\<lambda>ep. [TrimPrefix ep Scheme]) (pre @ [e]) \<and>
    discover env (pre @ e # rest) st = discover env (pre @ [e]) st"
proof -
  from discover_standalone [OF assms(2)] obtain st1 where
    skip: "\<And>rest. discover env (pre @ rest) st = discover env rest st1" and
    st1: "world st1 = w1" "clusterNodes st1 = clusterNodes st"
      "probed (trace st1) = probed (trace st) @ map (\<lambda>ep. [TrimPrefix ep Scheme]) pre"
    by blast
  from assms(3) st1(1) have q: "ClusterStatus env [TrimPrefix e Scheme] (world st1) = (Inr status, w2)"
    by simp
  note found = discover_found [OF q assms(4), of rest]
  have "discover env (e # rest) st1 = discover env [e] st1"
    using q assms(4) by (simp add: discover_Cons Let_def)
  then have "discover env (pre @ e # rest) st = discover env (pre @ [e]) st"
    by (simp add: skip)
  with found st1 assms(1) show ?thesis
    by (simp add: skip)
qed

theorem discover_first_multi_node_witness:
  "clusterNodes (after_NewClient [] [] :: (string list, string) state) = {} \<and>
   probe_standalone (sim pair_ab add_ok) [''https://c'']
     (world (after_NewClient [] [] :: (string list, string) state)) = Some [] \<and>
   ClusterStatus (sim pair_ab add_ok) [TrimPrefix ''https://a'' Scheme] [] =
     (Inr \<lparr>NodesUp = [\<lparr>Host = ''a''\<rparr>], NodesDown = [''b'']\<rparr>, []) \<and>
   length (NodesUp \<lparr>NodesUp = [\<lparr>Host = ''a''\<rparr>], NodesDown = [''b'']\<rparr>) +
     length (NodesDown \<lparr>NodesUp = [\<lparr>Host = ''a''\<rparr>], NodesDown = [''b'']\<rparr>) \<noteq> 1 \<and>
   clusterNodes (snd (discover (sim pair_ab add_ok) ([''https://c''] @ ''https://a'' # [''b''])
      (after_NewClient [] []))) = {''a'', ''b''} \<and>
   probed (trace (snd (discover (sim pair_ab add_ok) ([''https://c''] @ ''https://a'' # [''b''])
      (after_NewClient [] [])))) = [[''c''], [''a'']]"
proof -
  have h1: "clusterNodes (after_NewClient [] [] :: (string list, string) state) = {}"
    by simp
  have h2: "probe_standalone (sim pair_ab add_ok) [''https://c'']
     (world (after_NewClient [] [] :: (string list, string) state)) = Some []"
    by (simp add: sim_def pair_ab_def cluster_of_def TrimPrefix_def Scheme_def)
  have h3: "ClusterStatus (sim pair_ab add_ok) [TrimPrefix ''https://a'' Scheme] [] =
     (Inr \<lparr>NodesUp = [\<lparr>Host = ''a''\<rparr>], NodesDown = [''b'']\<rparr>, [])"
    by (simp add: sim_def pair_ab_def cluster_of_def TrimPrefix_def Scheme_def)
  have h4: "length (NodesUp \<lparr>NodesUp = [\<lparr>Host = ''a''\<rparr>], NodesDown = [''b'']\<rparr>) +
     length (NodesDown \<lparr>NodesUp = [\<lparr>Host = ''a''\<rparr>], NodesDown = [''b'']\<rparr>) \<noteq> 1"
    by simp
  from discover_first_multi_node [OF h1 h2 h3 h4, of "[''b'']"] h1 h2 h3 show ?thesis
    by (elim conjE) (simp add: TrimPrefix_def Scheme_def insert_commute)
qed

text \<open>
  C4, as the code has it. When discovery finds an endpoint whose status has a total other
  than one, every up host and every down host of that status is a key of the membership
  set exactly as the status reports it. (The scheme is stripped from the configured
  endpoints only.)
\<close>

theorem discover_records_reported_hosts:
  assumes "probe_standalone env pre (world st) = Some w1"
    and "ClusterStatus env [TrimPrefix e Scheme] w1 = (Inr status, w2)"
    and "length (NodesUp status) + length (NodesDown status) \<noteq> 1"
  shows "(\<forall>node \<in> set (NodesUp status).
            Host node \<in> clusterNodes (snd (discover env (pre @ e # rest) st))) \<and>
         (\<forall>host \<in> set (NodesDown status).
            host \<in> clusterNodes (snd (discover env (pre @ e # rest) st)))"
proof -
  from discover_standalone [OF assms(1)] obtain st1 where
    skip: "discover env (pre @ e # rest) st = discover env (e # rest) st1" and
    st1: "world st1 = w1"
    by blast
  from assms(2) st1 have "ClusterStatus env [TrimPrefix e Scheme] (world st1) = (Inr status, w2)"
    by simp
  from discover_found(4) [OF this assms(3), of rest] show ?thesis
    by (simp add: skip)
qed

theorem discover_records_reported_hosts_witness:
  "probe_standalone (sim pair_ab_scheme add_ok) [''https://c'']
     (world (after_NewClient [] [] :: (string list, string) state)) = Some [] \<and>
   ClusterStatus (sim pair_ab_scheme add_ok) [TrimPrefix ''https://a'' Scheme] [] =
     (Inr \<lparr>NodesUp = [\<lparr>Host = ''https://a''\<rparr>, \<lparr>Host = ''https://b''\<rparr>], NodesDown = []\<rparr>, []) \<and>
   ''https://a'' \<in> clusterNodes (snd (discover (sim pair_ab_scheme add_ok)
       ([''https://c''] @ ''https://a'' # [''https://b'']) (after_NewClient [] []))) \<and>
   ''https://b'' \<in> clusterNodes (snd (discover (sim pair_ab_scheme add_ok)
       ([''https://c''] @ ''https://a'' # [''https://b'']) (after_NewClient [] [])))"
proof -
  have h1: "probe_standalone (sim pair_ab_scheme add_ok) [''https://c'']
     (world (after_NewClient [] [] :: (string list, string) state)) = Some []"
    by (simp add: sim_def pair_ab_scheme_def cluster_of_def TrimPrefix_def Scheme_def)
  have h2: "ClusterStatus (sim pair_ab_scheme add_ok) [TrimPrefix ''https://a'' Scheme] [] =
     (Inr \<lparr>NodesUp = [\<lparr>Host = ''https://a''\<rparr>, \<lparr>Host = ''https://b''\<rparr>], NodesDown = []\<rparr>, [])"
    by (simp add: sim_def pair_ab_scheme_def cluster_of_def TrimPrefix_def Scheme_def)
  have h3: "length (NodesUp \<lparr>NodesUp = [\<lparr>Host = ''https://a''\<rparr>, \<lparr>Host = ''https://b''\<rparr>], NodesDown = []\<rparr>) +
     length (NodesDown \<lparr>NodesUp = [\<lparr>Host = ''https://a''\<rparr>, \<lparr>Host = ''https://b''\<rparr>], NodesDown = []\<rparr>) \<noteq> 1"
    by simp
  from discover_records_reported_hosts [OF h1 h2 h3, of "[''https://b'']"] h1 h2 show ?thesis
    by simp
qed

text \<open>
  C4 as stated fails when a node reports hosts that carry the scheme: the keys recorded are
  \<open>https://a\<close> and \<open>https://b\<close>, and their normalised forms \<open>a\<close> and \<open>b\<close> are not keys.
\<close>

theorem reported_host_not_normalized:
  "membership (snd (Join (sim pair_ab_scheme add_ok) (conf_of [''https://a'', ''https://b'']) []))
     = Some {''https://a'', ''https://b''} \<and>
   TrimPrefix ''https://a'' Scheme = ''a'' \<and> ''a'' \<notin> {''https://a'', ''https://b''} \<and>
   TrimPrefix ''https://b'' Scheme = ''b'' \<and> ''b'' \<notin> {''https://a'', ''https://b''}"
  by (auto simp add: run_defs pair_ab_scheme_def add_ok_def)


text \<open>
  C5. When \<^verbatim>\<open>Join\<close> gets as far as discovery (two or more endpoints, the client built) and
  every endpoint answers its status query with one node in total, the membership set holds
  exactly one host, the normalised first endpoint of the list.
\<close>

theorem all_standalone_elects_first:
  assumes "1 < length (Endpoints conf)"
    and "NewClient env conf w = (Inr hosts, w0)"
    and "probe_standalone env (Endpoints conf) w0 = Some w1"
  shows "membership (snd (Join env conf w)) = Some {TrimPrefix (Endpoints conf ! 0) Scheme}"
proof -
  from assms(3) have "probe_standalone env (Endpoints conf) (world (after_NewClient hosts w0)) = Some w1"
    by simp
  from discover_standalone [OF this] obtain st1 where
    "\<And>rest. discover env (Endpoints conf @ rest) (after_NewClient hosts w0) = discover env rest st1"
    and "clusterNodes st1 = {}"
    by auto
  from this(1) [of "[]"] this(2) have d: "discover env (Endpoints conf) (after_NewClient hosts w0) = (None, st1)"
    and empty: "clusterNodes st1 = {}"
    by simp_all
  show ?thesis
  proof (cases rule: Join_cases [of conf env w])
    case Trivial
    with assms(1) show ?thesis by simp
  next
    case (NoClient e w1')
    with assms(2) show ?thesis by simp
  next
    case (Unreachable hosts' w1' e st1')
    with assms(2) d show ?thesis by simp
  next
    case (Converging hosts' w1' st1' st3)
    with assms(2) d have "st1' = st1" by simp
    with Converging(4,5) empty show ?thesis
      by (simp add: converge_clusterNodes elect_clusterNodes)
  qed
qed

theorem all_standalone_elects_first_witness:
  "1 < length (Endpoints (conf_of [''https://x'', ''https://y''])) \<and>
   NewClient (sim all_alone add_ok) (conf_of [''https://x'', ''https://y'']) [] =
     (Inr [''https://x'', ''https://y''], []) \<and>
   probe_standalone (sim all_alone add_ok) (Endpoints (conf_of [''https://x'', ''https://y''])) []
     = Some [] \<and>
   membership (snd (Join (sim all_alone add_ok) (conf_of [''https://x'', ''https://y'']) []))
     = Some {''x''}"
proof -
  have h1: "1 < length (Endpoints (conf_of [''https://x'', ''https://y'']))"
    by simp
  have h2: "NewClient (sim all_alone add_ok) (conf_of [''https://x'', ''https://y'']) [] =
     (Inr [''https://x'', ''https://y''], [])"
    by (simp add: sim_def)
  have h3: "probe_standalone (sim all_alone add_ok)
      (Endpoints (conf_of [''https://x'', ''https://y''])) [] = Some []"
    by (simp add: sim_def all_alone_def cluster_of_def TrimPrefix_def Scheme_def)
  from all_standalone_elects_first [OF h1 h2 h3] h1 h2 h3 show ?thesis
    by (simp add: TrimPrefix_def Scheme_def)
qed

text \<open>
  C10, as the code has it. Let the first status answer that is not of one node report no
  host at all. Then discovery stops at that endpoint with the membership set still empty,
  the election makes the normalised first endpoint the only member, and, when \<^verbatim>\<open>Join\<close>
  returns nil, the add-node calls are those for every supplied endpoint whose normalised
  form differs from that of the first.
\<close>

theorem empty_status_elects_first:
  fixes env :: "('w, 'e) env"
  assumes "1 < length (Endpoints conf)"
    and "NewClient env conf w = (Inr hosts, w0)"
    and "Endpoints conf = pre @ e # rest"
    and "probe_standalone env pre w0 = Some w1"
    and "ClusterStatus env [TrimPrefix e Scheme] w1 = (Inr status, w2)"
    and "NodesUp status = []" and "NodesDown status = []"
  shows "clusterNodes (snd (discover env (Endpoints conf) (after_NewClient hosts w0))) = {} \<and>
    probed (out_trace (snd (Join env conf w))) = map (\<lambda>ep. [TrimPrefix ep Scheme]) (pre @ [e]) \<and>
    membership (snd (Join env conf w)) = Some {TrimPrefix (Endpoints conf ! 0) Scheme} \<and>
    (fst (Join env conf w) = None \<longrightarrow>
       added (out_trace (snd (Join env conf w))) =
         filter (\<lambda>h. h \<noteq> TrimPrefix (Endpoints conf ! 0) Scheme)
           (map (\<lambda>ep. TrimPrefix ep Scheme) (Endpoints conf)))"
proof -
  let ?st0 = "after_NewClient hosts w0 :: ('w, 'e) state"
  let ?first = "TrimPrefix (Endpoints conf ! 0) Scheme"
  from assms(4) have "probe_standalone env pre (world ?st0) = Some w1"
    by simp
  from discover_standalone [OF this] obtain st' where
    skip: "discover env (pre @ e # rest) ?st0 = discover env (e # rest) st'" and
    st': "world st' = w1" "clusterNodes st' = {}"
      "probed (trace st') = map (\<lambda>ep. [TrimPrefix ep Scheme]) pre"
    by auto
  from assms(5) st'(1) have q: "ClusterStatus env [TrimPrefix e Scheme] (world st') = (Inr status, w2)"
    by simp
  from assms(6,7) have zero: "length (NodesUp status) + length (NodesDown status) \<noteq> 1"
    by simp
  note found = discover_found [OF q zero, of rest]
  obtain st1 where d: "discover env (Endpoints conf) ?st0 = (None, st1)"
    using found(1) skip assms(3) by (cases "discover env (Endpoints conf) ?st0") simp
  from d found(4,5) skip assms(3,6,7) st' have
    empty: "clusterNodes st1 = {}" and
    pr: "probed (trace st1) = map (\<lambda>ep. [TrimPrefix ep Scheme]) (pre @ [e])"
    by simp_all
  show ?thesis
  proof (cases rule: Join_cases [of conf env w])
    case Trivial
    with assms(1) show ?thesis by simp
  next
    case (NoClient e' w1')
    with assms(2) show ?thesis by simp
  next
    case (Unreachable hosts' w1' e' st1')
    with assms(2) d show ?thesis by simp
  next
    case (Converging hosts' w1' st1' st3)
    let ?c = "converge env (Endpoints conf) st3"
    from Converging(2,3) assms(2) d have same: "hosts' = hosts" "w1' = w0" "st1' = st1"
      by simp_all
    note st3 = Converging_facts [OF Converging(3,4)]
    from st3(4) empty same have cn: "clusterNodes st3 = {?first}"
      by (simp add: elect_clusterNodes)
    have "added (trace (snd ?c)) =
        filter (\<lambda>h. h \<noteq> ?first) (map (\<lambda>ep. TrimPrefix ep Scheme) (Endpoints conf))"
      if "fst ?c = None"
      using converge_added_ok [OF that] by (simp add: st3(2) cn)
    with d empty pr cn st3(3) same Converging(5) show ?thesis
      by (simp add: converge_clusterNodes converge_probed)
  qed
qed

theorem empty_status_elects_first_witness:
  "1 < length (Endpoints (conf_of [''https://a'', ''https://b'', ''https://c''])) \<and>
   NewClient (sim b_empty add_ok) (conf_of [''https://a'', ''https://b'', ''https://c'']) [] =
     (Inr [''https://a'', ''https://b'', ''https://c''], []) \<and>
   Endpoints (conf_of [''https://a'', ''https://b'', ''https://c'']) =
     [''https://a''] @ ''https://b'' # [''https://c''] \<and>
   probe_standalone (sim b_empty add_ok) [''https://a''] [] = Some [] \<and>
   ClusterStatus (sim b_empty add_ok) [TrimPrefix ''https://b'' Scheme] [] =
     (Inr \<lparr>NodesUp = [], NodesDown = []\<rparr>, []) \<and>
   fst (Join (sim b_empty add_ok) (conf_of [''https://a'', ''https://b'', ''https://c'']) []) = None \<and>
   probed (out_trace (snd (Join (sim b_empty add_ok)
      (conf_of [''https://a'', ''https://b'', ''https://c'']) []))) = [[''a''], [''b'']] \<and>
   membership (snd (Join (sim b_empty add_ok)
      (conf_of [''https://a'', ''https://b'', ''https://c'']) [])) = Some {''a''} \<and>
   added (out_trace (snd (Join (sim b_empty add_ok)
      (conf_of [''https://a'', ''https://b'', ''https://c'']) []))) = [''b'', ''c'']"
proof -
  have h1: "1 < length (Endpoints (conf_of [''https://a'', ''https://b'', ''https://c'']))"
    by simp
  have h2: "NewClient (sim b_empty add_ok) (conf_of [''https://a'', ''https://b'', ''https://c'']) [] =
     (Inr [''https://a'', ''https://b'', ''https://c''], [])"
    by (simp add: sim_def)
  have h3: "Endpoints (conf_of [''https://a'', ''https://b'', ''https://c'']) =
     [''https://a''] @ ''https://b'' # [''https://c'']"
    by simp
  have h4: "probe_standalone (sim b_empty add_ok) [''https://a''] [] = Some []"
    by (simp add: sim_def b_empty_def cluster_of_def TrimPrefix_def Scheme_def)
  have h5: "ClusterStatus (sim b_empty add_ok) [TrimPrefix ''https://b'' Scheme] [] =
     (Inr \<lparr>NodesUp = [], NodesDown = []\<rparr>, [])"
    by (simp add: sim_def b_empty_def cluster_of_def TrimPrefix_def Scheme_def)
  have ok: "fst (Join (sim b_empty add_ok) (conf_of [''https://a'', ''https://b'', ''https://c'']) []) = None"
    by (simp add: run_defs b_empty_def add_ok_def)
  from empty_status_elects_first [OF h1 h2 h3 h4 h5] h1 h2 h3 h4 h5 ok show ?thesis
    by (simp add: TrimPrefix_def Scheme_def)
qed

text \<open>
  C10 as stated fails when an add-node call fails: with \<open>a\<close>, \<open>b\<close>, \<open>c\<close>, \<open>d\<close>, where \<open>b\<close>
  reports no host and adding \<open>c\<close> is refused, discovery stops at \<open>b\<close> and \<open>a\<close> is elected,
  but \<^verbatim>\<open>Join\<close> returns the error of \<open>c\<close> and \<open>d\<close> is never issued an add-node call.
\<close>

theorem empty_status_add_failure:
  "EvStatus [''b''] (Inr \<lparr>NodesUp = [], NodesDown = []\<rparr>)
     \<in> set (out_trace (snd (Join (sim b_empty add_c_refused)
          (conf_of [''https://a'', ''https://b'', ''https://c'', ''https://d'']) []))) \<and>
   probed (out_trace (snd (Join (sim b_empty add_c_refused)
          (conf_of [''https://a'', ''https://b'', ''https://c'', ''https://d'']) []))) = [[''a''], [''b'']] \<and>
   membership (snd (Join (sim b_empty add_c_refused)
          (conf_of [''https://a'', ''https://b'', ''https://c'', ''https://d'']) [])) = Some {''a''} \<and>
   fst (Join (sim b_empty add_c_refused)
          (conf_of [''https://a'', ''https://b'', ''https://c'', ''https://d'']) []) = Some ''refused'' \<and>
   TrimPrefix ''https://d'' Scheme = ''d'' \<and>
   ''d'' \<notin> set (added (out_trace (snd (Join (sim b_empty add_c_refused)
          (conf_of [''https://a'', ''https://b'', ''https://c'', ''https://d'']) []))))"
  by (simp add: run_defs b_empty_def add_c_refused_def)

end
